theory Spec2Isabelle
  imports Complex_Main
begin

section \<open>JavaScript values, responses and computations that may throw\<close>

text \<open>
  The two pages (\<^verbatim>\<open>apps/web/app/results/page.tsx\<close> and the home page with
  \<^verbatim>\<open>fetchSuburbs\<close>) keep whatever the server sent in their React state, with no
  check of its shape, so the state holds JavaScript values, not typed records.

  \<open>JNum\<close> carries the value of the decoded number (a double is a rational);
  \<open>JObj\<close> lists the members of an object; \<open>JInherited n\<close> stands for the member
  \<open>n\<close> that every plain object inherits from \<^verbatim>\<open>Object.prototype\<close> (for instance
  the function \<^verbatim>\<open>toString\<close>). Decoding a response body never yields
  \<open>JUndefined\<close> or \<open>JInherited\<close>.
\<close>

datatype jsval =
    JUndefined
  | JNull
  | JBool bool
  | JNum rat
  | JStr string
  | JArr "jsval list"
  | JObj "(string \<times> jsval) list"
  | JInherited string

text \<open>What a thrown value can be in the two functions.\<close>

datatype exn =
    FetchFailed   \<comment> \<open>the rejection of \<^verbatim>\<open>fetch\<close>, rethrown by \<^verbatim>\<open>await\<close>\<close>
  | SyntaxError   \<comment> \<open>\<^verbatim>\<open>response.json()\<close> on a body that is not JSON\<close>
  | TypeError     \<comment> \<open>reading a property of \<^verbatim>\<open>null\<close> or \<^verbatim>\<open>undefined\<close>, calling a non-function\<close>

text \<open>Truthiness, as \<^verbatim>\<open>||\<close>, \<^verbatim>\<open>&&\<close> and \<^verbatim>\<open>if\<close> test it.\<close>

fun truthy :: "jsval \<Rightarrow> bool" where
  "truthy JUndefined = False"
| "truthy JNull = False"
| "truthy (JBool b) = b"
| "truthy (JNum n) = (n \<noteq> 0)"
| "truthy (JStr s) = (s \<noteq> [])"
| "truthy (JArr xs) = True"
| "truthy (JObj kvs) = True"
| "truthy (JInherited n) = True"

definition js_or :: "jsval \<Rightarrow> jsval \<Rightarrow> jsval" where
  "js_or a b = (if truthy a then a else b)"

text \<open>
  \<^verbatim>\<open>v.name\<close> for a name that no prototype defines (the pages read \<^verbatim>\<open>services\<close>,
  \<^verbatim>\<open>suburbs\<close> and \<^verbatim>\<open>rulecard\<close>): a \<^verbatim>\<open>TypeError\<close> on \<^verbatim>\<open>null\<close> and
  \<^verbatim>\<open>undefined\<close>, the member of an object when it has one (the last one, should the
  list repeat a key, as \<^verbatim>\<open>JSON.parse\<close> keeps the last), \<^verbatim>\<open>undefined\<close> otherwise.
\<close>

fun get_prop :: "jsval \<Rightarrow> string \<Rightarrow> exn + jsval" where
  "get_prop JUndefined name = Inl TypeError"
| "get_prop JNull name = Inl TypeError"
| "get_prop (JObj kvs) name =
     (case map_of (rev kvs) name of Some v \<Rightarrow> Inr v | None \<Rightarrow> Inr JUndefined)"
| "get_prop v name = Inr JUndefined"

text \<open>
  A \<^verbatim>\<open>Response\<close>: its status code and what \<^verbatim>\<open>await response.json()\<close> gives,
  \<open>None\<close> when the call throws because the body is not valid JSON. \<^verbatim>\<open>response.ok\<close>
  is a status code in 200..299.
\<close>

record response =
  status_code :: nat
  json_body :: "jsval option"

definition ok :: "response \<Rightarrow> bool" where
  "ok r = (200 \<le> status_code r \<and> status_code r \<le> 299)"

text \<open>The outcome of one \<^verbatim>\<open>fetch\<close>, as \<^verbatim>\<open>Promise.allSettled\<close> reports it.\<close>

datatype settled = Fulfilled response | Rejected

text \<open>
  A statement sequence over a state \<open>'s\<close>: it returns the state it reached and the
  exception that stopped it, if any.
\<close>

type_synonym 's comp = "'s \<Rightarrow> exn option \<times> 's"

definition throw :: "exn \<Rightarrow> 's comp" where
  "throw e s = (Some e, s)"

definition seq :: "'s comp \<Rightarrow> 's comp \<Rightarrow> 's comp" where
  "seq f g s = (case f s of (None, s') \<Rightarrow> g s' | (Some e, s') \<Rightarrow> (Some e, s'))"

text \<open>
  \<^verbatim>\<open>try { body } catch (e) { handler } finally { fin }\<close>: the handler runs when the
  body throws, \<open>fin\<close> runs in every case, and what leaves the statement is the
  exception of \<open>fin\<close>, else that of the handler, else nothing.
\<close>

definition try_catch_finally :: "'s comp \<Rightarrow> (exn \<Rightarrow> 's comp) \<Rightarrow> 's comp \<Rightarrow> 's comp" where
  "try_catch_finally body handler fin s =
     (case body s of (r1, s1) \<Rightarrow>
        (case (case r1 of None \<Rightarrow> (None, s1) | Some e \<Rightarrow> handler e s1) of (r2, s2) \<Rightarrow>
           (case fin s2 of (None, s3) \<Rightarrow> (r2, s3) | (Some e, s3) \<Rightarrow> (Some e, s3))))"

text \<open>
  The block that both pages repeat for a settled request,
  \<^verbatim>\<open>if (res.status === 'fulfilled' && res.value.ok) { const d = await res.value.json(); k(d) }\<close>
\<close>

definition when_ok :: "settled \<Rightarrow> (jsval \<Rightarrow> 's comp) \<Rightarrow> 's comp" where
  "when_ok r k s =
     (case r of
        Fulfilled resp \<Rightarrow>
          if ok resp
          then (case json_body resp of None \<Rightarrow> throw SyntaxError s | Some d \<Rightarrow> k d s)
          else (None, s)
      | Rejected \<Rightarrow> (None, s))"

section \<open>The results page: \<^verbatim>\<open>fetchAll\<close>\<close>

text \<open>
  The seven \<^verbatim>\<open>useState\<close> cells of \<^verbatim>\<open>ResultsPageContent\<close>. A setter stores the
  value it is given; the values given here are decoded bodies and the literals of the
  source, never functions.
\<close>

record page_state =
  services :: jsval
  seifa :: jsval
  labour :: jsval
  rulecard :: jsval
  aiInsight :: jsval
  loading :: bool
  error :: "string option"

definition initial_page :: page_state where
  "initial_page =
     \<lparr>services = JArr [], seifa = JNull, labour = JNull, rulecard = JNull,
      aiInsight = JNull, loading = False, error = None\<rparr>"

definition setServices :: "jsval \<Rightarrow> page_state comp" where
  "setServices v s = (None, s\<lparr>services := v\<rparr>)"

definition setSeifa :: "jsval \<Rightarrow> page_state comp" where
  "setSeifa v s = (None, s\<lparr>seifa := v\<rparr>)"

definition setLabour :: "jsval \<Rightarrow> page_state comp" where
  "setLabour v s = (None, s\<lparr>labour := v\<rparr>)"

definition setRulecard :: "jsval \<Rightarrow> page_state comp" where
  "setRulecard v s = (None, s\<lparr>rulecard := v\<rparr>)"

definition setAiInsight :: "jsval \<Rightarrow> page_state comp" where
  "setAiInsight v s = (None, s\<lparr>aiInsight := v\<rparr>)"

definition setLoading :: "bool \<Rightarrow> page_state comp" where
  "setLoading b s = (None, s\<lparr>loading := b\<rparr>)"

definition setError :: "string option \<Rightarrow> page_state comp" where
  "setError e s = (None, s\<lparr>error := e\<rparr>)"

text \<open>
  The five outcomes that \<^verbatim>\<open>await Promise.allSettled([...])\<close> destructures, in the
  order of the array. They are the input of the model: the requests themselves change
  nothing on the page.
\<close>

record settled_results =
  intentRes :: settled
  servicesRes :: settled
  seifaRes :: settled
  labourRes :: settled
  rulecardRes :: settled

text \<open>The five \<^verbatim>\<open>if\<close> blocks inside \<^verbatim>\<open>try\<close>, in the order of the source.\<close>

definition fetchAll_try :: "settled_results \<Rightarrow> page_state comp" where
  "fetchAll_try rs =
     seq (when_ok (intentRes rs) (\<lambda>intentData. setAiInsight intentData))
    (seq (when_ok (servicesRes rs) (\<lambda>servData.
            case get_prop servData ''services'' of
              Inl e \<Rightarrow> throw e
            | Inr v \<Rightarrow> setServices (js_or v (JArr []))))
    (seq (when_ok (seifaRes rs) (\<lambda>seifaData. setSeifa seifaData))
    (seq (when_ok (labourRes rs) (\<lambda>labourData. setLabour labourData))
         (when_ok (rulecardRes rs) (\<lambda>rulecardData. setRulecard rulecardData)))))"

text \<open>The two statements before \<^verbatim>\<open>try\<close>, and the whole function.\<close>

definition fetchAll_start :: "page_state comp" where
  "fetchAll_start = seq (setLoading True) (setError None)"

definition fetchAll :: "settled_results \<Rightarrow> page_state comp" where
  "fetchAll rs =
     seq fetchAll_start
         (try_catch_finally
            (fetchAll_try rs)
            (\<lambda>err. setError (Some ''Error fetching data''))
            (setLoading False))"

text \<open>The query read from the search parameters, and the effect that starts \<open>fetchAll\<close>.\<close>

record query =
  category :: string
  state :: string
  suburb :: string
  userQuery :: string

definition useEffect_fetch :: "query \<Rightarrow> settled_results \<Rightarrow> page_state comp" where
  "useEffect_fetch q rs s =
     (if category q \<noteq> [] \<and> state q \<noteq> [] \<and> suburb q \<noteq> [] \<and> userQuery q \<noteq> []
      then fetchAll rs s
      else (None, s))"

text \<open>
  Which of its three screens the component returns: the spinner while \<open>loading\<close>,
  the error screen when \<open>error\<close> is a non-empty string, the results otherwise.
\<close>

datatype status = Loading | Failed | Ready

definition status_of :: "page_state \<Rightarrow> status" where
  "status_of s =
     (if loading s then Loading
      else if (case error s of None \<Rightarrow> False | Some e \<Rightarrow> e \<noteq> []) then Failed
      else Ready)"

text \<open>
  The guide section of the results screen. It is rendered when \<open>rulecard\<close> is truthy:
  \<^verbatim>\<open>rulecard.rulecard.split('\n').map((step, index) => ...)\<close> shows one row per
  piece, with the badge \<^verbatim>\<open>index + 1\<close> and the piece as text. \<open>None\<close> is the section
  left out; calling \<^verbatim>\<open>split\<close> on anything but a string is a \<^verbatim>\<open>TypeError\<close>.
\<close>

definition newline :: char where
  "newline = CHR 0x0A"

text \<open>\<^verbatim>\<open>text.split('\n')\<close>: the pieces between the newlines, empty pieces included.\<close>

fun split_nl :: "string \<Rightarrow> string list" where
  "split_nl [] = [[]]"
| "split_nl (c # cs) =
     (if c = newline then [] # split_nl cs
      else (case split_nl cs of [] \<Rightarrow> [[c]] | p # ps \<Rightarrow> (c # p) # ps))"

definition guide_steps :: "jsval \<Rightarrow> exn + (nat \<times> string) list option" where
  "guide_steps rc =
     (if \<not> truthy rc then Inr None
      else (case get_prop rc ''rulecard'' of
              Inl e \<Rightarrow> Inl e
            | Inr (JStr text) \<Rightarrow>
                Inr (Some (map (\<lambda>(index, step). (index + 1, step))
                             (enumerate 0 (split_nl text))))
            | Inr other \<Rightarrow> Inl TypeError))"

text \<open>
  What the specification says of the steps: the text is its pieces put back together
  with one newline between neighbours, and no piece holds a newline.
\<close>

fun join_nl :: "string list \<Rightarrow> string" where
  "join_nl [] = []"
| "join_nl [p] = p"
| "join_nl (p # q # ps) = p @ newline # join_nl (q # ps)"

section \<open>The home page: \<^verbatim>\<open>fetchSuburbs\<close>\<close>

text \<open>The fallback table, as the source writes it (repeated names included).\<close>

definition SUBURBS_BY_STATE :: "(string \<times> string list) list" where
  "SUBURBS_BY_STATE =
     [(''NSW'', [''Sydney CBD'', ''Parramatta'', ''Newcastle'', ''Wollongong'', ''Central Coast'',
                 ''Blue Mountains'', ''Hunter Valley'', ''Illawarra'', ''North Shore'', ''Western Sydney'']),
      (''VIC'', [''Melbourne CBD'', ''Geelong'', ''Ballarat'', ''Bendigo'', ''Shepparton'',
                 ''Mildura'', ''Warrnambool'', ''Albury-Wodonga'', ''Latrobe Valley'', ''Mornington Peninsula'']),
      (''QLD'', [''Brisbane City'', ''Gold Coast'', ''Sunshine Coast'', ''Townsville'', ''Cairns'',
                 ''Toowoomba'', ''Mackay'', ''Rockhampton'', ''Bundaberg'', ''Hervey Bay'']),
      (''WA'', [''Perth CBD'', ''Fremantle'', ''Joondalup'', ''Rockingham'', ''Mandurah'',
                ''Albany'', ''Bunbury'', ''Geraldton'', ''Kalgoorlie'', ''Broome'']),
      (''SA'', [''Adelaide CBD'', ''Mount Gambier'', ''Whyalla'', ''Murray Bridge'', ''Port Augusta'',
                ''Port Pirie'', ''Port Lincoln'', ''Renmark'', ''Berri'', ''Mount Barker'']),
      (''TAS'', [''Hobart'', ''Launceston'', ''Devonport'', ''Burnie'', ''Ulverstone'',
                 ''Kingston'', ''Clarence'', ''Glenorchy'', ''New Norfolk'', ''Bridgewater'']),
      (''ACT'', [''Canberra City'', ''Belconnen'', ''Woden'', ''Tuggeranong'', ''Gungahlin'',
                 ''Fyshwick'', ''Mitchell'', ''Fyshwick'', ''Dickson'', ''Braddon'']),
      (''NT'', [''Darwin'', ''Alice Springs'', ''Palmerston'', ''Katherine'', ''Tennant Creek'',
                ''Jabiru'', ''Nhulunbuy'', ''Alyangula'', ''Jabiru'', ''Tennant Creek''])]"

text \<open>
  The table is an object literal, so \<^verbatim>\<open>SUBURBS_BY_STATE[state]\<close> also finds what
  every object inherits from \<^verbatim>\<open>Object.prototype\<close>; these are its member names.
\<close>

definition Object_prototype_names :: "string list" where
  "Object_prototype_names =
     [''constructor'', ''hasOwnProperty'', ''isPrototypeOf'', ''propertyIsEnumerable'',
      ''toLocaleString'', ''toString'', ''valueOf'', ''__proto__'',
      ''__defineGetter__'', ''__defineSetter__'', ''__lookupGetter__'', ''__lookupSetter__'']"

definition table_lookup :: "string \<Rightarrow> jsval" where
  "table_lookup st =
     (case map_of SUBURBS_BY_STATE st of
        Some names \<Rightarrow> JArr (map JStr names)
      | None \<Rightarrow> if st \<in> set Object_prototype_names then JInherited st else JUndefined)"

text \<open>
  The two cells of \<^verbatim>\<open>HomePage\<close> that \<^verbatim>\<open>fetchSuburbs\<close> writes, and \<open>fetched\<close>,
  the addresses that \<^verbatim>\<open>fetch\<close> was called with, oldest first.
\<close>

record home_state =
  availableSuburbs :: jsval
  loadingSuburbs :: bool
  fetched :: "string list"

definition initial_home :: home_state where
  "initial_home = \<lparr>availableSuburbs = JArr [], loadingSuburbs = False, fetched = []\<rparr>"

text \<open>
  The setter of a React cell stores the value it is given, unless that is a function: a
  function is called as an updater on the previous content and its result is stored. The
  only functions that can reach \<^verbatim>\<open>setAvailableSuburbs\<close> are the inherited members
  (\<^verbatim>\<open>__proto__\<close> is an object, not a function). React is no part of the repository,
  so what such a call leaves in the cell is the parameter \<open>applied\<close>: \<open>applied n p\<close>
  for the member \<open>n\<close> and the previous content \<open>p\<close>. The call happens inside React;
  an updater that throws does so while the page renders, not in \<^verbatim>\<open>fetchSuburbs\<close>.
\<close>

definition setAvailableSuburbs :: "(string \<Rightarrow> jsval \<Rightarrow> jsval) \<Rightarrow> jsval \<Rightarrow> home_state comp" where
  "setAvailableSuburbs applied v s =
     (None, s\<lparr>availableSuburbs :=
        (case v of
           JInherited n \<Rightarrow> if n = ''__proto__'' then v else applied n (availableSuburbs s)
         | _ \<Rightarrow> v)\<rparr>)"

definition setLoadingSuburbs :: "bool \<Rightarrow> home_state comp" where
  "setLoadingSuburbs b s = (None, s\<lparr>loadingSuburbs := b\<rparr>)"

text \<open>
  \<^verbatim>\<open>process.env.NEXT_PUBLIC_API_BASE || "http://localhost:8000/v1"\<close>, the setting
  being a parameter: unset, or a string.
\<close>

definition api_base :: "string option \<Rightarrow> string" where
  "api_base env =
     (case env of
        None \<Rightarrow> ''http://localhost:8000/v1''
      | Some b \<Rightarrow> if b \<noteq> [] then b else ''http://localhost:8000/v1'')"

text \<open>
  \<^verbatim>\<open>await fetch(url)\<close>: the call is recorded; a rejected promise is thrown, a
  fulfilled one gives its response to the rest of the block.
\<close>

definition await_fetch :: "string \<Rightarrow> settled \<Rightarrow> (response \<Rightarrow> home_state comp) \<Rightarrow> home_state comp" where
  "await_fetch url r k s =
     (case r of
        Rejected \<Rightarrow> throw FetchFailed (s\<lparr>fetched := fetched s @ [url]\<rparr>)
      | Fulfilled resp \<Rightarrow> k resp (s\<lparr>fetched := fetched s @ [url]\<rparr>))"

text \<open>
  \<open>fetchSuburbs applied env r st\<close>: \<open>st\<close> is the state code, \<open>r\<close> the outcome of
  the one request it may send.
\<close>

definition fetchSuburbs_try ::
  "(string \<Rightarrow> jsval \<Rightarrow> jsval) \<Rightarrow> string option \<Rightarrow> settled \<Rightarrow> string \<Rightarrow> home_state comp" where
  "fetchSuburbs_try applied env r st =
     await_fetch (api_base env @ ''/suburbs-list/'' @ st) r (\<lambda>resp.
       if ok resp
       then (\<lambda>s. case json_body resp of
                   None \<Rightarrow> throw SyntaxError s
                 | Some data \<Rightarrow>
                     (case get_prop data ''suburbs'' of
                        Inl e \<Rightarrow> throw e s
                      | Inr v \<Rightarrow> setAvailableSuburbs applied (js_or v (JArr [])) s))
       else setAvailableSuburbs applied (js_or (table_lookup st) (JArr [])))"

definition fetchSuburbs ::
  "(string \<Rightarrow> jsval \<Rightarrow> jsval) \<Rightarrow> string option \<Rightarrow> settled \<Rightarrow> string \<Rightarrow> home_state comp" where
  "fetchSuburbs applied env r st =
     (if st = [] then setAvailableSuburbs applied (JArr [])
      else seq (setLoadingSuburbs True)
             (try_catch_finally
                (fetchSuburbs_try applied env r st)
                (\<lambda>err. setAvailableSuburbs applied (js_or (table_lookup st) (JArr [])))
                (setLoadingSuburbs False)))"

text \<open>
  The options of the state select, whose value is the one argument \<^verbatim>\<open>fetchSuburbs\<close> is
  ever called with: the empty value of the placeholder and the eight of \<^verbatim>\<open>STATES\<close>.
\<close>

definition STATES :: "(string \<times> string) list" where
  "STATES =
     [(''NSW'', ''New South Wales''), (''VIC'', ''Victoria''), (''QLD'', ''Queensland''),
      (''WA'', ''Western Australia''), (''SA'', ''South Australia''), (''TAS'', ''Tasmania''),
      (''ACT'', ''Australian Capital Territory''), (''NT'', ''Northern Territory'')]"

definition select_values :: "string list" where
  "select_values = [] # map fst STATES"

section \<open>Vocabulary of the properties\<close>

text \<open>The five sources, the outcome and the page field that belong to each.\<close>

datatype source = Intent | Services | Seifa | Labour | Rulecard

fun res_of :: "settled_results \<Rightarrow> source \<Rightarrow> settled" where
  "res_of rs Intent = intentRes rs"
| "res_of rs Services = servicesRes rs"
| "res_of rs Seifa = seifaRes rs"
| "res_of rs Labour = labourRes rs"
| "res_of rs Rulecard = rulecardRes rs"

fun field_of :: "page_state \<Rightarrow> source \<Rightarrow> jsval" where
  "field_of s Intent = aiInsight s"
| "field_of s Services = services s"
| "field_of s Seifa = seifa s"
| "field_of s Labour = labour s"
| "field_of s Rulecard = rulecard s"

text \<open>\<open>handled_before k j\<close>: the block of \<open>k\<close> stands before the block of \<open>j\<close> in \<^verbatim>\<open>fetchAll\<close>.\<close>

fun position :: "source \<Rightarrow> nat" where
  "position Intent = 0"
| "position Services = 1"
| "position Seifa = 2"
| "position Labour = 3"
| "position Rulecard = 4"

definition handled_before :: "source \<Rightarrow> source \<Rightarrow> bool" where
  "handled_before k j = (position k < position j)"

text \<open>
  The ways a request can come back: a network error or a status outside 200..299
  (\<open>http_failed\<close>), a success status with a body that is not JSON (\<open>undecodable\<close>),
  a success status with the decoded body \<open>d\<close> (\<open>delivers\<close>).
\<close>

definition http_failed :: "settled \<Rightarrow> bool" where
  "http_failed r = (case r of Rejected \<Rightarrow> True | Fulfilled resp \<Rightarrow> \<not> ok resp)"

definition undecodable :: "settled \<Rightarrow> bool" where
  "undecodable r =
     (case r of Rejected \<Rightarrow> False | Fulfilled resp \<Rightarrow> ok resp \<and> json_body resp = None)"

definition delivers :: "settled \<Rightarrow> jsval \<Rightarrow> bool" where
  "delivers r d =
     (case r of Rejected \<Rightarrow> False | Fulfilled resp \<Rightarrow> ok resp \<and> json_body resp = Some d)"

text \<open>
  The value that the block of a source stores for the decoded body \<open>d\<close>: the body
  itself, and for the services its member \<^verbatim>\<open>services\<close>, or the empty list when that
  is missing or falsy.
\<close>

definition stored :: "source \<Rightarrow> jsval \<Rightarrow> jsval" where
  "stored src d =
     (if src = Services
      then (case get_prop d ''services'' of Inl e \<Rightarrow> JArr [] | Inr v \<Rightarrow> js_or v (JArr []))
      else d)"

text \<open>
  The outcomes on which the block of a source throws: a body that is not JSON, and for
  the services a body that is \<^verbatim>\<open>null\<close>, whose member cannot be read.
\<close>

definition throws :: "source \<Rightarrow> settled \<Rightarrow> bool" where
  "throws src r =
     (undecodable r \<or> (src = Services \<and> (delivers r JNull \<or> delivers r JUndefined)))"

text \<open>
  The blocks once more, in the form the proofs use: \<open>put k v\<close> writes the field of
  source \<open>k\<close>, \<open>block k r\<close> is the \<^verbatim>\<open>if\<close> block of \<open>k\<close> on the outcome \<open>r\<close>, and
  \<open>run_blocks\<close> runs a list of blocks up to the first that throws. That \<open>fetchAll_try\<close>
  is \<open>run_blocks\<close> on its five blocks is lemma \<open>fetchAll_try_blocks\<close>.
\<close>

definition put :: "source \<Rightarrow> jsval \<Rightarrow> page_state \<Rightarrow> page_state" where
  "put k v s =
     (case k of
        Intent \<Rightarrow> s\<lparr>aiInsight := v\<rparr>
      | Services \<Rightarrow> s\<lparr>services := v\<rparr>
      | Seifa \<Rightarrow> s\<lparr>seifa := v\<rparr>
      | Labour \<Rightarrow> s\<lparr>labour := v\<rparr>
      | Rulecard \<Rightarrow> s\<lparr>rulecard := v\<rparr>)"

definition block :: "source \<Rightarrow> settled \<Rightarrow> page_state comp" where
  "block k r =
     when_ok r (\<lambda>d s. case (if k = Services then get_prop d ''services'' else Inr d) of
                        Inl e \<Rightarrow> throw e s
                      | Inr v \<Rightarrow> (None, put k (if k = Services then js_or v (JArr []) else v) s))"

fun run_blocks :: "(source \<times> settled) list \<Rightarrow> page_state comp" where
  "run_blocks [] s = (None, s)"
| "run_blocks ((k, r) # bs) s =
     (case block k r s of (None, s') \<Rightarrow> run_blocks bs s' | (Some e, s') \<Rightarrow> (Some e, s'))"

definition blocks_of :: "settled_results \<Rightarrow> (source \<times> settled) list" where
  "blocks_of rs = map (\<lambda>k. (k, res_of rs k)) [Intent, Services, Seifa, Labour, Rulecard]"

section \<open>Example inputs\<close>

text \<open>The query, the outcomes and the bodies that the examples below are evaluated on.\<close>

definition example_query :: query where
  "example_query =
     \<lparr>category = ''housing'', state = ''QLD'', suburb = ''Brisbane City'',
      userQuery = ''student accommodation''\<rparr>"

definition success :: "jsval \<Rightarrow> settled" where
  "success d = Fulfilled \<lparr>status_code = 200, json_body = Some d\<rparr>"

definition not_json :: settled where
  "not_json = Fulfilled \<lparr>status_code = 200, json_body = None\<rparr>"

definition server_error :: settled where
  "server_error = Fulfilled \<lparr>status_code = 500, json_body = Some (JObj [(''detail'', JStr ''down'')])\<rparr>"

definition intent_body :: jsval where
  "intent_body = JObj [(''intent'', JStr ''housing''), (''confidence'', JNum (9 / 10))]"

definition services_body :: jsval where
  "services_body = JObj [(''services'', JArr [JObj [(''name'', JStr ''Homes'')]])]"

definition seifa_body :: jsval where
  "seifa_body = JObj [(''location'', JStr ''Brisbane City''), (''seifa_decile'', JNum 8)]"

definition labour_body :: jsval where
  "labour_body = JObj [(''state'', JStr ''QLD'')]"

definition rulecard_body :: jsval where
  "rulecard_body = JObj [(''category'', JStr ''housing''), (''rulecard'', JStr ''Apply online'')]"

section \<open>How the blocks of \<^verbatim>\<open>fetchAll\<close> run\<close>

lemma settled_cases: "http_failed r \<or> undecodable r \<or> (\<exists>d. delivers r d)"
  by (cases r) (auto simp: http_failed_def undecodable_def delivers_def)

lemma when_ok_failed: "http_failed r \<Longrightarrow> when_ok r k s = (None, s)"
  by (cases r) (simp_all add: http_failed_def when_ok_def)

lemma when_ok_delivers: "delivers r d \<Longrightarrow> when_ok r k s = k d s"
  by (cases r) (simp_all add: delivers_def when_ok_def)

lemma when_ok_undecodable: "undecodable r \<Longrightarrow> when_ok r k s = (Some SyntaxError, s)"
  by (cases r) (simp_all add: undecodable_def when_ok_def throw_def)

lemma fetchAll_unfold:
  "fetchAll rs s =
     (case fetchAll_try rs (s\<lparr>loading := True, error := None\<rparr>) of
        (None, s') \<Rightarrow> (None, s'\<lparr>loading := False\<rparr>)
      | (Some e, s') \<Rightarrow> (None, s'\<lparr>error := Some ''Error fetching data'', loading := False\<rparr>))"
  by (simp add: fetchAll_def fetchAll_start_def seq_def setLoading_def setError_def try_catch_finally_def
      split: prod.splits option.splits)

lemma run_blocks_Cons: "run_blocks ((k, r) # bs) = seq (block k r) (run_blocks bs)"
  by (rule ext) (simp add: seq_def)

lemma seq_run_blocks_Nil: "seq f (run_blocks []) = f"
  by (rule ext) (simp add: seq_def split: prod.splits option.splits)

lemma block_Intent: "block Intent r = when_ok r (\<lambda>intentData. setAiInsight intentData)"
  unfolding block_def
  by (rule arg_cong [where f = "when_ok r"]) (simp add: fun_eq_iff put_def setAiInsight_def)

lemma block_Seifa: "block Seifa r = when_ok r (\<lambda>seifaData. setSeifa seifaData)"
  unfolding block_def
  by (rule arg_cong [where f = "when_ok r"]) (simp add: fun_eq_iff put_def setSeifa_def)

lemma block_Labour: "block Labour r = when_ok r (\<lambda>labourData. setLabour labourData)"
  unfolding block_def
  by (rule arg_cong [where f = "when_ok r"]) (simp add: fun_eq_iff put_def setLabour_def)

lemma block_Rulecard: "block Rulecard r = when_ok r (\<lambda>rulecardData. setRulecard rulecardData)"
  unfolding block_def
  by (rule arg_cong [where f = "when_ok r"]) (simp add: fun_eq_iff put_def setRulecard_def)

lemma block_Services:
  "block Services r =
     when_ok r (\<lambda>servData.
       case get_prop servData ''services'' of
         Inl e \<Rightarrow> throw e
       | Inr v \<Rightarrow> setServices (js_or v (JArr [])))"
  unfolding block_def
  by (rule arg_cong [where f = "when_ok r"])
     (simp add: fun_eq_iff put_def setServices_def split: sum.splits)

lemma fetchAll_try_blocks: "fetchAll_try rs = run_blocks (blocks_of rs)"
  unfolding fetchAll_try_def blocks_of_def
  by (simp only: list.map res_of.simps run_blocks_Cons seq_run_blocks_Nil
        block_Intent block_Services block_Seifa block_Labour block_Rulecard)

lemma field_of_put: "field_of (put k v s) j = (if j = k then v else field_of s j)"
  by (cases k; cases j) (simp_all add: put_def)

lemma put_frame: "loading (put k v s) = loading s" "error (put k v s) = error s"
  by (cases k; simp add: put_def)+

lemma block_failed: "http_failed r \<Longrightarrow> block k r s = (None, s)"
  by (simp add: block_def when_ok_failed)

lemma block_throws: "throws k r \<Longrightarrow> \<exists>e. block k r s = (Some e, s)"
  by (cases r)
     (auto simp: throws_def block_def when_ok_def undecodable_def delivers_def throw_def)

lemma block_stores:
  assumes "delivers r d" and "\<not> throws k r"
  shows "block k r s = (None, put k (stored k d) s)"
proof (cases "k = Services")
  case False
  with assms show ?thesis
    by (simp add: block_def when_ok_delivers stored_def)
next
  case True
  with assms have "d \<noteq> JNull" and "d \<noteq> JUndefined"
    by (auto simp: throws_def)
  then have "\<exists>v. get_prop d ''services'' = Inr v"
    by (cases d) (simp_all split: option.splits)
  then obtain v where "get_prop d ''services'' = Inr v" ..
  with True assms show ?thesis
    by (simp add: block_def when_ok_delivers stored_def)
qed

lemma block_cases:
  "block k r s = (None, s) \<and> http_failed r
   \<or> (\<exists>e. block k r s = (Some e, s)) \<and> throws k r
   \<or> (\<exists>d. block k r s = (None, put k (stored k d) s) \<and> delivers r d \<and> \<not> throws k r)"
proof (cases "throws k r")
  case True
  then show ?thesis using block_throws by blast
next
  case nt: False
  then have "\<not> undecodable r" by (simp add: throws_def)
  with settled_cases [of r] consider "http_failed r" | d where "delivers r d" by blast
  then show ?thesis
  proof cases
    case 1
    then show ?thesis by (simp add: block_failed)
  next
    case 2
    with nt show ?thesis using block_stores by blast
  qed
qed


lemma failed_not_throws: "http_failed r \<Longrightarrow> \<not> throws k r"
  by (cases r) (auto simp: http_failed_def throws_def undecodable_def delivers_def)

text \<open>\<open>throws\<close> names exactly the outcomes on which the block throws.\<close>

lemma block_throws_iff: "fst (block k r s) \<noteq> None \<longleftrightarrow> throws k r"
  using block_cases [of k r s] failed_not_throws [of r k] by auto

lemma failed_not_delivers: "http_failed r \<Longrightarrow> \<not> delivers r d"
  by (cases r) (auto simp: http_failed_def delivers_def)

lemma delivers_inject: "delivers r d \<Longrightarrow> delivers r d' \<Longrightarrow> d = d'"
  by (cases r) (auto simp: delivers_def)

lemma block_other_field: "j \<noteq> k \<Longrightarrow> field_of (snd (block k r s)) j = field_of s j"
  using block_cases [of k r s] by (auto simp: field_of_put)

lemma block_loading_error:
  "loading (snd (block k r s)) = loading s \<and> error (snd (block k r s)) = error s"
  using block_cases [of k r s] by (auto simp: put_frame)

lemma run_blocks_loading_error:
  "loading (snd (run_blocks bs s)) = loading s \<and> error (snd (run_blocks bs s)) = error s"
proof (induction bs arbitrary: s)
  case Nil
  show ?case by simp
next
  case (Cons b bs)
  obtain k r where b: "b = (k, r)" by (cases b)
  show ?case
  proof (cases "block k r s")
    case (Pair x s1)
    with block_loading_error [of k r s] have "loading s1 = loading s \<and> error s1 = error s"
      by simp
    with Pair Cons.IH [of s1] b show ?thesis
      by (cases x) simp_all
  qed
qed

lemma run_blocks_other_field:
  "j \<notin> fst ` set bs \<Longrightarrow> field_of (snd (run_blocks bs s)) j = field_of s j"
proof (induction bs arbitrary: s)
  case Nil
  show ?case by simp
next
  case (Cons b bs)
  obtain k r where b: "b = (k, r)" by (cases b)
  with Cons.prems have jk: "j \<noteq> k" and jbs: "j \<notin> fst ` set bs" by auto
  show ?case
  proof (cases "block k r s")
    case (Pair x s1)
    with block_other_field [OF jk, of r s] have "field_of s1 j = field_of s j" by simp
    with Pair Cons.IH [OF jbs, of s1] b show ?thesis
      by (cases x) simp_all
  qed
qed

text \<open>A run in which no block throws: every block has its effect.\<close>

lemma run_blocks_all:
  assumes "distinct (map fst bs)" and "\<forall>(k, r) \<in> set bs. \<not> throws k r"
  shows "fst (run_blocks bs s) = None
       \<and> (\<forall>(j, r) \<in> set bs.
            (http_failed r \<longrightarrow> field_of (snd (run_blocks bs s)) j = field_of s j)
          \<and> (\<forall>d. delivers r d \<longrightarrow> field_of (snd (run_blocks bs s)) j = stored j d))"
  using assms
proof (induction bs arbitrary: s)
  case Nil
  show ?case by simp
next
  case (Cons b bs)
  obtain k r where b: "b = (k, r)" by (cases b)
  from Cons.prems b have nt: "\<not> throws k r" and kbs: "k \<notin> fst ` set bs"
    and dist: "distinct (map fst bs)" and rest: "\<forall>(k, r) \<in> set bs. \<not> throws k r"
    by auto
  from block_cases [of k r s] nt
  obtain s1 where blk: "block k r s = (None, s1)"
    and s1: "s1 = s \<and> http_failed r \<or> (\<exists>d. s1 = put k (stored k d) s \<and> delivers r d)"
    by auto
  have run: "run_blocks ((k, r) # bs) s = run_blocks bs s1"
    using blk by simp
  note IH = Cons.IH [OF dist rest, of s1]
  have head: "(http_failed r \<longrightarrow> field_of (snd (run_blocks bs s1)) k = field_of s k)
            \<and> (\<forall>d. delivers r d \<longrightarrow> field_of (snd (run_blocks bs s1)) k = stored k d)"
    using s1 run_blocks_other_field [OF kbs, of s1]
    by (auto simp: field_of_put dest: failed_not_delivers delivers_inject)
  have tail: "\<forall>(j, r') \<in> set bs.
                (http_failed r' \<longrightarrow> field_of (snd (run_blocks bs s1)) j = field_of s j)
              \<and> (\<forall>d. delivers r' d \<longrightarrow> field_of (snd (run_blocks bs s1)) j = stored j d)"
  proof (clarify, intro conjI impI allI)
    fix j r' assume mem: "(j, r') \<in> set bs"
    then have "j \<noteq> k" using kbs by force
    then have same: "field_of s1 j = field_of s j"
      using s1 by (auto simp: field_of_put)
    { assume "http_failed r'"
      with IH mem same show "field_of (snd (run_blocks bs s1)) j = field_of s j" by auto }
    { fix d assume "delivers r' d"
      with IH mem show "field_of (snd (run_blocks bs s1)) j = stored j d" by auto }
  qed
  from IH head tail show ?case
    unfolding b run by simp
qed


lemma run_blocks_retains:
  "\<forall>(k, r) \<in> set bs. k = j \<longrightarrow> http_failed r \<or> throws k r \<Longrightarrow>
   field_of (snd (run_blocks bs s)) j = field_of s j"
proof (induction bs arbitrary: s)
  case Nil
  show ?case by simp
next
  case (Cons b bs)
  obtain k r where b: "b = (k, r)" by (cases b)
  from Cons.prems b have here: "k = j \<longrightarrow> http_failed r \<or> throws k r"
    and rest: "\<forall>(k, r) \<in> set bs. k = j \<longrightarrow> http_failed r \<or> throws k r"
    by auto
  show ?case
  proof (cases "block k r s")
    case (Pair x s1)
    from block_cases [of k r s] here Pair have "field_of s1 j = field_of s j"
      by (auto simp: field_of_put dest: failed_not_throws failed_not_delivers)
    with Pair Cons.IH [OF rest, of s1] b show ?thesis
      by (cases x) simp_all
  qed
qed

text \<open>A run that throws: it stops at the first block that throws.\<close>

lemma run_blocks_stops:
  assumes "sorted_wrt (\<lambda>a b. position (fst a) < position (fst b)) bs"
    and "fst (run_blocks bs s) \<noteq> None"
  shows "\<exists>(k, r) \<in> set bs. throws k r
       \<and> (\<forall>(j, r') \<in> set bs. position j < position k \<longrightarrow>
             \<not> throws j r'
           \<and> (\<forall>d. delivers r' d \<longrightarrow> field_of (snd (run_blocks bs s)) j = stored j d))
       \<and> (\<forall>j. position k \<le> position j \<longrightarrow> field_of (snd (run_blocks bs s)) j = field_of s j)"
  using assms
proof (induction bs arbitrary: s)
  case Nil
  then show ?case by simp
next
  case (Cons b bs)
  obtain k0 r0 where b: "b = (k0, r0)" by (cases b)
  from Cons.prems(1) b have later: "\<forall>(j, r') \<in> set bs. position k0 < position j"
    and sorted: "sorted_wrt (\<lambda>a b. position (fst a) < position (fst b)) bs"
    by auto
  show ?case
  proof (cases "throws k0 r0")
    case True
    then obtain e where "block k0 r0 s = (Some e, s)"
      using block_throws by blast
    then have "run_blocks ((k0, r0) # bs) s = (Some e, s)" by simp
    with True later show ?thesis
      unfolding b by fastforce
  next
    case nt: False
    with block_cases [of k0 r0 s]
    obtain s1 where blk: "block k0 r0 s = (None, s1)"
      and s1: "s1 = s \<and> http_failed r0 \<or> (\<exists>d. s1 = put k0 (stored k0 d) s \<and> delivers r0 d)"
      by auto
    have run: "run_blocks ((k0, r0) # bs) s = run_blocks bs s1"
      using blk by simp
    with Cons.prems(2) b have "fst (run_blocks bs s1) \<noteq> None" by simp
    from Cons.IH [OF sorted this]
    obtain k r where mem: "(k, r) \<in> set bs" and thr: "throws k r"
      and before: "\<forall>(j, r') \<in> set bs. position j < position k \<longrightarrow>
             \<not> throws j r'
           \<and> (\<forall>d. delivers r' d \<longrightarrow> field_of (snd (run_blocks bs s1)) j = stored j d)"
      and after: "\<forall>j. position k \<le> position j \<longrightarrow>
             field_of (snd (run_blocks bs s1)) j = field_of s1 j"
      by blast
    from later mem have k0k: "position k0 < position k" by auto
    have k0bs: "k0 \<notin> fst ` set bs"
      using later by force
    have head: "\<forall>d. delivers r0 d \<longrightarrow> field_of (snd (run_blocks bs s1)) k0 = stored k0 d"
      using s1 run_blocks_other_field [OF k0bs, of s1]
      by (auto simp: field_of_put dest: failed_not_delivers delivers_inject)
    have after': "\<forall>j. position k \<le> position j \<longrightarrow>
             field_of (snd (run_blocks bs s1)) j = field_of s j"
    proof (intro allI impI)
      fix j assume le: "position k \<le> position j"
      with k0k have "j \<noteq> k0" by auto
      then have "field_of s1 j = field_of s j"
        using s1 by (auto simp: field_of_put)
      with after le show "field_of (snd (run_blocks bs s1)) j = field_of s j" by simp
    qed
    have "throws k r
       \<and> (\<forall>(j, r') \<in> set ((k0, r0) # bs). position j < position k \<longrightarrow>
             \<not> throws j r'
           \<and> (\<forall>d. delivers r' d \<longrightarrow> field_of (snd (run_blocks bs s1)) j = stored j d))
       \<and> (\<forall>j. position k \<le> position j \<longrightarrow> field_of (snd (run_blocks bs s1)) j = field_of s j)"
      using thr nt head before after' by simp
    with mem show ?thesis
      unfolding b run by (intro bexI [of _ "(k, r)"]) simp_all
  qed
qed

lemma blocks_of_sorted:
  "sorted_wrt (\<lambda>a b. position (fst a) < position (fst b)) (blocks_of rs)"
  by (simp add: blocks_of_def)

lemma blocks_of_distinct: "distinct (map fst (blocks_of rs))"
  by (simp add: blocks_of_def)

lemma blocks_of_mem: "(k, r) \<in> set (blocks_of rs) \<longleftrightarrow> r = res_of rs k"
  by (cases k) (auto simp: blocks_of_def)

lemmas example_defs =
  success_def not_json_def server_error_def intent_body_def services_body_def seifa_body_def
  labour_body_def rulecard_body_def

lemmas run_defs =
  fetchAll_def fetchAll_start_def fetchAll_try_def seq_def when_ok_def ok_def throw_def
  try_catch_finally_def setLoading_def setError_def setAiInsight_def setServices_def
  setSeifa_def setLabour_def setRulecard_def js_or_def status_of_def initial_page_def

lemmas outcome_defs = http_failed_def delivers_def undecodable_def throws_def ok_def

section \<open>What \<^verbatim>\<open>fetchAll\<close> leaves on the page\<close>

lemma field_of_frame:
  "field_of (s\<lparr>loading := b\<rparr>) j = field_of s j"
  "field_of (s\<lparr>error := e\<rparr>) j = field_of s j"
  by (cases j; simp)+

lemma fetchAll_field:
  "field_of (snd (fetchAll rs s)) j =
     field_of (snd (run_blocks (blocks_of rs) (s\<lparr>loading := True, error := None\<rparr>))) j"
  by (simp add: fetchAll_unfold fetchAll_try_blocks field_of_frame
      split: prod.splits option.splits)

lemma fetchAll_error:
  "error (snd (fetchAll rs s)) =
     (if fst (run_blocks (blocks_of rs) (s\<lparr>loading := True, error := None\<rparr>)) = None
      then None else Some ''Error fetching data'')"
  using run_blocks_loading_error [of "blocks_of rs" "s\<lparr>loading := True, error := None\<rparr>"]
  by (auto simp: fetchAll_unfold fetchAll_try_blocks split: prod.splits option.splits)

lemma fetchAll_returns: "fst (fetchAll rs s) = None"
  by (simp add: fetchAll_unfold split: prod.splits option.splits)

lemma fetchAll_loading: "loading (snd (fetchAll rs s)) = False"
  by (simp add: fetchAll_unfold split: prod.splits option.splits)

lemma fetchAll_status:
  "status_of (snd (fetchAll rs s)) =
     (if fst (run_blocks (blocks_of rs) (s\<lparr>loading := True, error := None\<rparr>)) = None
      then Ready else Failed)"
  by (simp add: status_of_def fetchAll_loading fetchAll_error)

lemma fetchAll_start_eq: "fetchAll_start s = (None, s\<lparr>loading := True, error := None\<rparr>)"
  by (simp add: fetchAll_start_def seq_def setLoading_def setError_def)

lemma run_all_sources:
  assumes "\<forall>j. \<not> throws j (res_of rs j)"
  shows "fst (run_blocks (blocks_of rs) s) = None"
    and "http_failed (res_of rs j) \<Longrightarrow>
           field_of (snd (run_blocks (blocks_of rs) s)) j = field_of s j"
    and "delivers (res_of rs j) d \<Longrightarrow>
           field_of (snd (run_blocks (blocks_of rs) s)) j = stored j d"
proof -
  have nt: "\<forall>(j, r) \<in> set (blocks_of rs). \<not> throws j r"
    using assms by (auto simp: blocks_of_mem)
  note all = run_blocks_all [OF blocks_of_distinct nt, of s]
  have mem: "(j, res_of rs j) \<in> set (blocks_of rs)"
    by (simp add: blocks_of_mem)
  from all show "fst (run_blocks (blocks_of rs) s) = None" by simp
  from all mem show "http_failed (res_of rs j) \<Longrightarrow>
           field_of (snd (run_blocks (blocks_of rs) s)) j = field_of s j"
    by blast
  from all mem show "delivers (res_of rs j) d \<Longrightarrow>
           field_of (snd (run_blocks (blocks_of rs) s)) j = stored j d"
    by blast
qed

lemma truthy_body_not_throws: "delivers r d \<Longrightarrow> truthy d \<Longrightarrow> \<not> throws j r"
  by (cases r) (auto simp: throws_def undecodable_def delivers_def)

lemma run_stops_sources:
  assumes "fst (run_blocks (blocks_of rs) s) \<noteq> None"
  shows "\<exists>k. throws k (res_of rs k)
       \<and> (\<forall>j. position j < position k \<longrightarrow>
             \<not> throws j (res_of rs j)
           \<and> (\<forall>d. delivers (res_of rs j) d \<longrightarrow>
                 field_of (snd (run_blocks (blocks_of rs) s)) j = stored j d))
       \<and> (\<forall>j. position k \<le> position j \<longrightarrow>
             field_of (snd (run_blocks (blocks_of rs) s)) j = field_of s j)"
proof -
  from run_blocks_stops [OF blocks_of_sorted assms]
  obtain k r where kr: "(k, r) \<in> set (blocks_of rs)" and thr: "throws k r"
    and before: "\<forall>(j, r') \<in> set (blocks_of rs). position j < position k \<longrightarrow>
             \<not> throws j r'
           \<and> (\<forall>d. delivers r' d \<longrightarrow>
                 field_of (snd (run_blocks (blocks_of rs) s)) j = stored j d)"
    and after: "\<forall>j. position k \<le> position j \<longrightarrow>
             field_of (snd (run_blocks (blocks_of rs) s)) j = field_of s j"
    by blast
  from kr have r: "r = res_of rs k" by (simp add: blocks_of_mem)
  have "\<forall>j. position j < position k \<longrightarrow>
             \<not> throws j (res_of rs j)
           \<and> (\<forall>d. delivers (res_of rs j) d \<longrightarrow>
                 field_of (snd (run_blocks (blocks_of rs) s)) j = stored j d)"
  proof (intro allI impI)
    fix j assume lt: "position j < position k"
    have "(j, res_of rs j) \<in> set (blocks_of rs)" by (simp add: blocks_of_mem)
    with before lt show "\<not> throws j (res_of rs j)
           \<and> (\<forall>d. delivers (res_of rs j) d \<longrightarrow>
                 field_of (snd (run_blocks (blocks_of rs) s)) j = stored j d)"
      by blast
  qed
  with thr r after show ?thesis by blast
qed

lemma block_uniform:
  "(\<forall>s. block k r s = (None, s))
   \<or> (\<exists>e. \<forall>s. block k r s = (Some e, s))
   \<or> (\<exists>v. \<forall>s. block k r s = (None, put k v s))"
proof -
  consider "http_failed r" | "undecodable r" | d where "delivers r d"
    using settled_cases by blast
  then show ?thesis
  proof cases
    case 1
    then show ?thesis by (simp add: block_failed)
  next
    case 2
    then have "\<forall>s. block k r s = (Some SyntaxError, s)"
      by (simp add: block_def when_ok_undecodable)
    then show ?thesis by blast
  next
    case 3
    show ?thesis
    proof (cases "throws k r")
      case False
      with 3 show ?thesis using block_stores by blast
    next
      case True
      with 3 have "k = Services" and "d = JNull \<or> d = JUndefined"
        by (cases r; auto simp: throws_def undecodable_def delivers_def)+
      with 3 have "\<forall>s. block k r s = (Some TypeError, s)"
        by (auto simp: block_def when_ok_delivers throw_def)
      then show ?thesis by blast
    qed
  qed
qed

lemma put_same: "field_of s k = v \<Longrightarrow> put k v s = s"
  by (cases k) (auto simp: put_def)

lemma run_blocks_idem:
  "distinct (map fst bs) \<Longrightarrow> run_blocks bs (snd (run_blocks bs s)) = run_blocks bs s"
proof (induction bs arbitrary: s)
  case Nil
  show ?case by simp
next
  case (Cons b bs)
  obtain k r where b: "b = (k, r)" by (cases b)
  from Cons.prems b have kbs: "k \<notin> fst ` set bs" and dist: "distinct (map fst bs)"
    by auto
  from block_uniform [of k r]
  consider "\<forall>s. block k r s = (None, s)"
    | e where "\<forall>s. block k r s = (Some e, s)"
    | v where "\<forall>s. block k r s = (None, put k v s)"
    by blast
  then show ?case
  proof cases
    case 1
    then have "\<And>t. run_blocks ((k, r) # bs) t = run_blocks bs t" by simp
    with Cons.IH [OF dist] show ?thesis unfolding b by simp
  next
    case 2
    then have "\<And>t. run_blocks ((k, r) # bs) t = (Some e, t)" by simp
    then show ?thesis unfolding b by simp
  next
    case 3
    then have run: "\<And>t. run_blocks ((k, r) # bs) t = run_blocks bs (put k v t)" by simp
    let ?s' = "snd (run_blocks bs (put k v s))"
    have "field_of ?s' k = v"
      using run_blocks_other_field [OF kbs, of "put k v s"] by (simp add: field_of_put)
    then have "put k v ?s' = ?s'" by (rule put_same)
    with Cons.IH [OF dist, of "put k v s"] show ?thesis
      unfolding b run by simp
  qed
qed

lemma fetchAll_idem: "fetchAll rs (snd (fetchAll rs s)) = fetchAll rs s"
proof -
  let ?s0 = "s\<lparr>loading := True, error := None\<rparr>"
  obtain x s1 where run: "run_blocks (blocks_of rs) ?s0 = (x, s1)"
    by (cases "run_blocks (blocks_of rs) ?s0")
  from run_blocks_loading_error [of "blocks_of rs" ?s0] run
  have "loading s1 = True" and "error s1 = None" by simp_all
  then have restore: "s1\<lparr>loading := True, error := None\<rparr> = s1" by simp
  from run_blocks_idem [OF blocks_of_distinct, of rs ?s0] run
  have again: "run_blocks (blocks_of rs) s1 = (x, s1)" by simp
  show ?thesis
  proof (cases x)
    case None
    with run restore again show ?thesis
      by (simp add: fetchAll_unfold fetchAll_try_blocks)
  next
    case (Some e)
    with run restore again show ?thesis
      by (simp add: fetchAll_unfold fetchAll_try_blocks)
  qed
qed

text \<open>Two runs on the same outcomes, from two pages.\<close>

lemma run_blocks_two:
  "fst (run_blocks bs s) = fst (run_blocks bs s')
   \<and> (\<forall>j. field_of (snd (run_blocks bs s)) j = field_of (snd (run_blocks bs s')) j
          \<or> field_of (snd (run_blocks bs s)) j = field_of s j
            \<and> field_of (snd (run_blocks bs s')) j = field_of s' j)"
proof (induction bs arbitrary: s s')
  case Nil
  show ?case by simp
next
  case (Cons b bs)
  obtain k r where b: "b = (k, r)" by (cases b)
  from block_uniform [of k r]
  consider "\<forall>s. block k r s = (None, s)"
    | e where "\<forall>s. block k r s = (Some e, s)"
    | v where "\<forall>s. block k r s = (None, put k v s)"
    by blast
  then show ?case
  proof cases
    case 1
    then have "\<And>t. run_blocks ((k, r) # bs) t = run_blocks bs t" by simp
    with Cons.IH [of s s'] show ?thesis unfolding b by simp
  next
    case 2
    then have "\<And>t. run_blocks ((k, r) # bs) t = (Some e, t)" by simp
    then show ?thesis unfolding b by simp
  next
    case 3
    then have run: "\<And>t. run_blocks ((k, r) # bs) t = run_blocks bs (put k v t)" by simp
    note IH = Cons.IH [of "put k v s" "put k v s'"]
    have "field_of (snd (run_blocks bs (put k v s))) j
            = field_of (snd (run_blocks bs (put k v s'))) j
          \<or> field_of (snd (run_blocks bs (put k v s))) j = field_of s j
            \<and> field_of (snd (run_blocks bs (put k v s'))) j = field_of s' j" for j
      using IH [THEN conjunct2, THEN spec, of j]
      by (cases "j = k") (auto simp: field_of_put)
    with IH show ?thesis
      unfolding b run by blast
  qed
qed

lemma same_fields_same_start:
  assumes "\<forall>j. field_of s j = field_of s' j"
  shows "s\<lparr>loading := True, error := None\<rparr> = s'\<lparr>loading := True, error := None\<rparr>"
proof -
  from assms [THEN spec, of Intent] assms [THEN spec, of Services] assms [THEN spec, of Seifa]
    assms [THEN spec, of Labour] assms [THEN spec, of Rulecard]
  show ?thesis by (cases s; cases s') simp
qed

section \<open>Splitting the guide text\<close>

lemma split_nl_nonempty: "split_nl t \<noteq> []"
  by (induction t) (auto split: list.splits)

lemma join_split_nl: "join_nl (split_nl t) = t"
proof (induction t)
  case Nil
  show ?case by simp
next
  case (Cons c cs)
  obtain p ps where sp: "split_nl cs = p # ps"
    using split_nl_nonempty [of cs] by (cases "split_nl cs") auto
  with Cons show ?case
    by (cases ps) auto
qed

lemma split_nl_no_newline: "p \<in> set (split_nl t) \<Longrightarrow> newline \<notin> set p"
  by (induction t arbitrary: p) (auto split: if_splits list.splits)

lemma split_nl_length: "length (split_nl t) = Suc (length (filter (\<lambda>c. c = newline) t))"
  by (induction t) (auto split: list.splits simp: split_nl_nonempty)

lemma numbered_snd: "map snd (map (\<lambda>(index, step). (index + 1, step)) (enumerate n xs)) = xs"
  by (induction xs arbitrary: n) simp_all

lemma numbered_fst:
  "map fst (map (\<lambda>(index, step). (index + 1, step)) (enumerate n xs)) = [Suc n ..< Suc (n + length xs)]"
proof -
  have "fst \<circ> (\<lambda>(index, step). (index + 1, step)) = Suc \<circ> (fst :: nat \<times> 'a \<Rightarrow> nat)"
    by (simp add: fun_eq_iff)
  then have "map fst (map (\<lambda>(index, step). (index + 1, step)) (enumerate n xs))
      = map Suc (map fst (enumerate n xs))"
    by (simp only: map_map)
  then show ?thesis
    by (simp only: map_fst_enumerate map_Suc_upt)
qed

section \<open>\<^verbatim>\<open>fetchSuburbs\<close> never throws\<close>



text \<open>The select offers the keys of the table and the empty value, and no inherited name.\<close>

lemma select_values_keys: "select_values = [] # map fst SUBURBS_BY_STATE"
  by (simp add: select_values_def STATES_def SUBURBS_BY_STATE_def)





section \<open>Properties of the results page\<close>

text \<open>
  C1, as amended. A sub-request that fails by a network error or by a status code outside
  200..299 costs only its own field. If the four other requests came back with a success
  status and a body that decodes to a truthy value (every JSON object is one), then
  \<open>fetchAll\<close> returns without an exception, the page is ready and shows no error, the
  field of the failed source is what it was before the call (absent on a freshly mounted
  page), and every other field holds the value stored from its own response.
\<close>

theorem single_http_failure_spares_the_others:
  assumes "http_failed (res_of rs k)"
    and "\<forall>j. j \<noteq> k \<longrightarrow> (\<exists>d. delivers (res_of rs j) d \<and> truthy d)"
  shows "fst (fetchAll rs s) = None
       \<and> status_of (snd (fetchAll rs s)) = Ready
       \<and> error (snd (fetchAll rs s)) = None
       \<and> field_of (snd (fetchAll rs s)) k = field_of s k
       \<and> (\<forall>j d. j \<noteq> k \<longrightarrow> delivers (res_of rs j) d \<longrightarrow>
             field_of (snd (fetchAll rs s)) j = stored j d)"
proof -
  let ?s0 = "s\<lparr>loading := True, error := None\<rparr>"
  have nt: "\<forall>j. \<not> throws j (res_of rs j)"
    using assms by (metis failed_not_throws truthy_body_not_throws)
  have "fst (run_blocks (blocks_of rs) ?s0) = None"
    by (rule run_all_sources(1) [OF nt])
  moreover have "field_of (snd (run_blocks (blocks_of rs) ?s0)) k = field_of ?s0 k"
    by (rule run_all_sources(2) [OF nt assms(1)])
  moreover have "\<forall>j d. delivers (res_of rs j) d \<longrightarrow>
          field_of (snd (run_blocks (blocks_of rs) ?s0)) j = stored j d"
    using run_all_sources(3) [OF nt] by blast
  ultimately show ?thesis
    by (simp add: fetchAll_returns fetchAll_status fetchAll_error fetchAll_field field_of_frame)
qed

theorem single_http_failure_spares_the_others_witness:
  "http_failed (res_of \<lparr>intentRes = success intent_body, servicesRes = server_error,
       seifaRes = success seifa_body, labourRes = success labour_body,
       rulecardRes = success rulecard_body\<rparr> Services)
   \<and> status_of (snd (fetchAll \<lparr>intentRes = success intent_body, servicesRes = server_error,
       seifaRes = success seifa_body, labourRes = success labour_body,
       rulecardRes = success rulecard_body\<rparr> initial_page)) = Ready
   \<and> services (snd (fetchAll \<lparr>intentRes = success intent_body, servicesRes = server_error,
       seifaRes = success seifa_body, labourRes = success labour_body,
       rulecardRes = success rulecard_body\<rparr> initial_page)) = JArr []
   \<and> rulecard (snd (fetchAll \<lparr>intentRes = success intent_body, servicesRes = server_error,
       seifaRes = success seifa_body, labourRes = success labour_body,
       rulecardRes = success rulecard_body\<rparr> initial_page)) = rulecard_body"
proof -
  let ?rs = "\<lparr>intentRes = success intent_body, servicesRes = server_error,
       seifaRes = success seifa_body, labourRes = success labour_body,
       rulecardRes = success rulecard_body\<rparr>"
  have h1: "http_failed (res_of ?rs Services)"
    by (simp add: outcome_defs example_defs)
  have h2: "\<forall>j. j \<noteq> Services \<longrightarrow> (\<exists>d. delivers (res_of ?rs j) d \<and> truthy d)"
  proof (intro allI impI)
    fix j :: source assume "j \<noteq> Services"
    then show "\<exists>d. delivers (res_of ?rs j) d \<and> truthy d"
      by (cases j) (simp_all add: outcome_defs example_defs)
  qed
  have d: "delivers (res_of ?rs Rulecard) rulecard_body"
    by (simp add: outcome_defs example_defs)
  from single_http_failure_spares_the_others [OF h1 h2, of initial_page] h1 d
  show ?thesis
    by (auto simp: stored_def initial_page_def)
qed

text \<open>
  C1 as stated also counts a body that is not valid JSON as such a failure. There it does
  not hold: with the services body not JSON and the four other requests successful, the
  page ends failed with the generic message, and the area and guide fields stay absent
  although their own responses were good.
\<close>

theorem invalid_body_fails_the_whole_result:
  "status_of (snd (fetchAll \<lparr>intentRes = success intent_body, servicesRes = not_json,
       seifaRes = success seifa_body, labourRes = success labour_body,
       rulecardRes = success rulecard_body\<rparr> initial_page)) = Failed
   \<and> error (snd (fetchAll \<lparr>intentRes = success intent_body, servicesRes = not_json,
       seifaRes = success seifa_body, labourRes = success labour_body,
       rulecardRes = success rulecard_body\<rparr> initial_page)) = Some ''Error fetching data''
   \<and> seifa (snd (fetchAll \<lparr>intentRes = success intent_body, servicesRes = not_json,
       seifaRes = success seifa_body, labourRes = success labour_body,
       rulecardRes = success rulecard_body\<rparr> initial_page)) = JNull
   \<and> rulecard (snd (fetchAll \<lparr>intentRes = success intent_body, servicesRes = not_json,
       seifaRes = success seifa_body, labourRes = success labour_body,
       rulecardRes = success rulecard_body\<rparr> initial_page)) = JNull"
  by (simp add: run_defs example_defs)

text \<open>
  C2, as amended. When \<open>fetchAll\<close> ends failed, the error is the generic message, and
  there is a source \<open>k\<close> whose block threw: no block before it threw, every field before
  it whose request delivered a body holds the value stored from that body, and the field
  of \<open>k\<close> and of every source handled after \<open>k\<close> is what it was before the call
  (absent on a freshly mounted page).
\<close>

theorem failed_result_keeps_earlier_fields:
  assumes "status_of (snd (fetchAll rs s)) = Failed"
  shows "error (snd (fetchAll rs s)) = Some ''Error fetching data''
       \<and> (\<exists>k. throws k (res_of rs k)
            \<and> (\<forall>j. handled_before j k \<longrightarrow>
                  \<not> throws j (res_of rs j)
                \<and> (\<forall>d. delivers (res_of rs j) d \<longrightarrow>
                      field_of (snd (fetchAll rs s)) j = stored j d))
            \<and> (\<forall>j. \<not> handled_before j k \<longrightarrow>
                  field_of (snd (fetchAll rs s)) j = field_of s j))"
proof -
  let ?s0 = "s\<lparr>loading := True, error := None\<rparr>"
  from assms have thrown: "fst (run_blocks (blocks_of rs) ?s0) \<noteq> None"
    by (simp add: fetchAll_status split: if_splits)
  from run_stops_sources [OF thrown]
  obtain k where "throws k (res_of rs k)"
    and "\<forall>j. position j < position k \<longrightarrow>
           \<not> throws j (res_of rs j)
         \<and> (\<forall>d. delivers (res_of rs j) d \<longrightarrow>
               field_of (snd (run_blocks (blocks_of rs) ?s0)) j = stored j d)"
    and "\<forall>j. position k \<le> position j \<longrightarrow>
           field_of (snd (run_blocks (blocks_of rs) ?s0)) j = field_of ?s0 j"
    by blast
  then have "throws k (res_of rs k)
            \<and> (\<forall>j. handled_before j k \<longrightarrow>
                  \<not> throws j (res_of rs j)
                \<and> (\<forall>d. delivers (res_of rs j) d \<longrightarrow>
                      field_of (snd (fetchAll rs s)) j = stored j d))
            \<and> (\<forall>j. \<not> handled_before j k \<longrightarrow>
                  field_of (snd (fetchAll rs s)) j = field_of s j)"
    by (simp add: handled_before_def fetchAll_field field_of_frame not_less)
  with thrown show ?thesis
    by (auto simp: fetchAll_error)
qed

theorem failed_result_keeps_earlier_fields_witness:
  "status_of (snd (fetchAll \<lparr>intentRes = success intent_body, servicesRes = Rejected,
       seifaRes = not_json, labourRes = success labour_body, rulecardRes = Rejected\<rparr>
       initial_page)) = Failed
   \<and> error (snd (fetchAll \<lparr>intentRes = success intent_body, servicesRes = Rejected,
       seifaRes = not_json, labourRes = success labour_body, rulecardRes = Rejected\<rparr>
       initial_page)) = Some ''Error fetching data''"
proof -
  let ?rs = "\<lparr>intentRes = success intent_body, servicesRes = Rejected,
       seifaRes = not_json, labourRes = success labour_body, rulecardRes = Rejected\<rparr>"
  have h: "status_of (snd (fetchAll ?rs initial_page)) = Failed"
    by (simp add: run_defs example_defs)
  from h failed_result_keeps_earlier_fields [OF h] show ?thesis by simp
qed

text \<open>
  C2 as stated says that no data field is populated on a failed result. With a good intent
  response and an area body that is not JSON, the page ends failed and the insight field
  holds the intent response.
\<close>

theorem failed_result_with_populated_field:
  "status_of (snd (fetchAll \<lparr>intentRes = success intent_body, servicesRes = Rejected,
       seifaRes = not_json, labourRes = Rejected, rulecardRes = Rejected\<rparr> initial_page)) = Failed
   \<and> aiInsight (snd (fetchAll \<lparr>intentRes = success intent_body, servicesRes = Rejected,
       seifaRes = not_json, labourRes = Rejected, rulecardRes = Rejected\<rparr> initial_page))
       = JObj [(''intent'', JStr ''housing''), (''confidence'', JNum (9 / 10))]"
  by (simp add: run_defs example_defs)

text \<open>
  C3, as amended. Let \<open>S\<close> be any set of sources whose requests came back with a
  success status and a body that decodes to a truthy value, and let every other request
  fail by a network error or a status code outside 200..299. Then \<open>fetchAll\<close> on a
  freshly mounted page returns without an exception, the page is ready and shows no error,
  the fields outside \<open>S\<close> are absent (their initial values), and every field in \<open>S\<close>
  holds the value stored from its response, which is truthy for the four fields that store
  the body itself. With \<open>S\<close> empty this is the case of five failed requests.
\<close>

theorem successful_subset_is_what_the_page_holds:
  assumes "\<forall>j \<in> S. \<exists>d. delivers (res_of rs j) d \<and> truthy d"
    and "\<forall>j. j \<notin> S \<longrightarrow> http_failed (res_of rs j)"
  shows "fst (fetchAll rs initial_page) = None
       \<and> status_of (snd (fetchAll rs initial_page)) = Ready
       \<and> error (snd (fetchAll rs initial_page)) = None
       \<and> (\<forall>j. j \<notin> S \<longrightarrow>
             field_of (snd (fetchAll rs initial_page)) j = field_of initial_page j)
       \<and> (\<forall>j \<in> S. \<forall>d. delivers (res_of rs j) d \<longrightarrow>
             field_of (snd (fetchAll rs initial_page)) j = stored j d
           \<and> (j \<noteq> Services \<longrightarrow> truthy (field_of (snd (fetchAll rs initial_page)) j)))"
proof -
  let ?s0 = "initial_page\<lparr>loading := True, error := None\<rparr>"
  have nt: "\<forall>j. \<not> throws j (res_of rs j)"
    using assms by (metis failed_not_throws truthy_body_not_throws)
  have "fst (run_blocks (blocks_of rs) ?s0) = None"
    by (rule run_all_sources(1) [OF nt])
  moreover have "\<forall>j. j \<notin> S \<longrightarrow>
          field_of (snd (run_blocks (blocks_of rs) ?s0)) j = field_of ?s0 j"
    using run_all_sources(2) [OF nt] assms(2) by blast
  moreover have "\<forall>j d. delivers (res_of rs j) d \<longrightarrow>
          field_of (snd (run_blocks (blocks_of rs) ?s0)) j = stored j d"
    using run_all_sources(3) [OF nt] by blast
  moreover have "\<forall>j \<in> S. \<forall>d. delivers (res_of rs j) d \<longrightarrow> j \<noteq> Services \<longrightarrow> truthy (stored j d)"
    using assms(1) by (auto simp: stored_def dest: delivers_inject)
  ultimately show ?thesis
    by (simp add: fetchAll_returns fetchAll_status fetchAll_error fetchAll_field field_of_frame)
qed

theorem successful_subset_is_what_the_page_holds_witness:
  "status_of (snd (fetchAll \<lparr>intentRes = Rejected, servicesRes = server_error,
       seifaRes = success seifa_body, labourRes = Rejected,
       rulecardRes = success rulecard_body\<rparr> initial_page)) = Ready
   \<and> seifa (snd (fetchAll \<lparr>intentRes = Rejected, servicesRes = server_error,
       seifaRes = success seifa_body, labourRes = Rejected,
       rulecardRes = success rulecard_body\<rparr> initial_page)) = seifa_body
   \<and> aiInsight (snd (fetchAll \<lparr>intentRes = Rejected, servicesRes = server_error,
       seifaRes = success seifa_body, labourRes = Rejected,
       rulecardRes = success rulecard_body\<rparr> initial_page)) = JNull"
proof -
  let ?rs = "\<lparr>intentRes = Rejected, servicesRes = server_error,
       seifaRes = success seifa_body, labourRes = Rejected,
       rulecardRes = success rulecard_body\<rparr>"
  have h1: "\<forall>j \<in> {Seifa, Rulecard}. \<exists>d. delivers (res_of ?rs j) d \<and> truthy d"
    by (simp add: outcome_defs example_defs)
  have h2: "\<forall>j. j \<notin> {Seifa, Rulecard} \<longrightarrow> http_failed (res_of ?rs j)"
  proof (intro allI impI)
    fix j :: source assume "j \<notin> {Seifa, Rulecard}"
    then show "http_failed (res_of ?rs j)"
      by (cases j) (simp_all add: outcome_defs example_defs)
  qed
  have d: "delivers (res_of ?rs Seifa) seifa_body"
    by (simp add: outcome_defs example_defs)
  from successful_subset_is_what_the_page_holds [OF h1 h2] d
  show ?thesis
    by (auto simp: stored_def initial_page_def)
qed

text \<open>
  C3 as stated lets the requests outside \<open>S\<close> fail in any way, a body that fails
  validation included. When all five fail by a body that is not JSON, the page ends failed,
  not ready.
\<close>

theorem all_five_fail_yet_failed:
  "status_of (snd (fetchAll \<lparr>intentRes = not_json, servicesRes = not_json,
       seifaRes = not_json, labourRes = not_json, rulecardRes = not_json\<rparr> initial_page)) = Failed"
  by (simp add: run_defs example_defs)

text \<open>
  C4. When all four fields of the query are non-empty, the effect runs \<open>fetchAll\<close>, and
  whatever the five requests came back with (fulfilled or rejected, any status code, any
  body), it returns without an exception and with the loading flag cleared: the page shows
  the results or the error screen, never the spinner.
\<close>

theorem fetchAll_ends_ready_or_failed:
  assumes "category q \<noteq> []" and "state q \<noteq> []" and "suburb q \<noteq> []" and "userQuery q \<noteq> []"
  shows "fst (useEffect_fetch q rs s) = None
       \<and> loading (snd (useEffect_fetch q rs s)) = False
       \<and> (status_of (snd (useEffect_fetch q rs s)) = Ready
          \<or> status_of (snd (useEffect_fetch q rs s)) = Failed)"
  using assms
  by (simp add: useEffect_fetch_def fetchAll_unfold status_of_def
      split: prod.splits option.splits)

theorem fetchAll_ends_ready_or_failed_witness:
  "category \<lparr>category = ''housing'', state = ''QLD'', suburb = ''Brisbane City'',
             userQuery = ''student accommodation''\<rparr> \<noteq> []
   \<and> status_of (snd (useEffect_fetch
        \<lparr>category = ''housing'', state = ''QLD'', suburb = ''Brisbane City'',
         userQuery = ''student accommodation''\<rparr>
        \<lparr>intentRes = Rejected,
         servicesRes = Fulfilled \<lparr>status_code = 500, json_body = None\<rparr>,
         seifaRes = Fulfilled \<lparr>status_code = 200, json_body = None\<rparr>,
         labourRes = Rejected, rulecardRes = Rejected\<rparr>
        initial_page)) = Failed"
  using fetchAll_ends_ready_or_failed
    [of "\<lparr>category = ''housing'', state = ''QLD'', suburb = ''Brisbane City'',
          userQuery = ''student accommodation''\<rparr>"
        "\<lparr>intentRes = Rejected,
          servicesRes = Fulfilled \<lparr>status_code = 500, json_body = None\<rparr>,
          seifaRes = Fulfilled \<lparr>status_code = 200, json_body = None\<rparr>,
          labourRes = Rejected, rulecardRes = Rejected\<rparr>"
        initial_page]
  by (simp add: useEffect_fetch_def fetchAll_def fetchAll_start_def fetchAll_try_def seq_def when_ok_def ok_def
      throw_def try_catch_finally_def setLoading_def setError_def status_of_def
      initial_page_def)

text \<open>
  C7, as amended. Two runs of \<open>fetchAll\<close> on the same five outcomes end with the same
  status and the same error, whatever the pages they start on, and each data field is the
  same after both unless both runs left it as their own page had it (the source failed, or
  its block was not reached). So two runs that start on pages with the same five data
  fields, two freshly mounted pages for instance, return the same result, and a second run
  of the effect on the page the first run left reproduces the first.
\<close>

theorem aggregation_determined_by_outcomes_and_fields:
  "((\<forall>j. field_of s j = field_of s' j) \<longrightarrow> fetchAll rs s = fetchAll rs s')
   \<and> status_of (snd (fetchAll rs s)) = status_of (snd (fetchAll rs s'))
   \<and> error (snd (fetchAll rs s)) = error (snd (fetchAll rs s'))
   \<and> (\<forall>j. field_of (snd (fetchAll rs s)) j = field_of (snd (fetchAll rs s')) j
          \<or> field_of (snd (fetchAll rs s)) j = field_of s j
            \<and> field_of (snd (fetchAll rs s')) j = field_of s' j)
   \<and> useEffect_fetch q rs (snd (useEffect_fetch q rs s)) = useEffect_fetch q rs s"
proof -
  let ?s0 = "s\<lparr>loading := True, error := None\<rparr>"
  let ?s0' = "s'\<lparr>loading := True, error := None\<rparr>"
  note two = run_blocks_two [of "blocks_of rs" ?s0 ?s0']
  have same: "(\<forall>j. field_of s j = field_of s' j) \<longrightarrow> fetchAll rs s = fetchAll rs s'"
  proof
    assume "\<forall>j. field_of s j = field_of s' j"
    then have "?s0 = ?s0'" by (rule same_fields_same_start)
    then show "fetchAll rs s = fetchAll rs s'"
      by (simp only: fetchAll_unfold)
  qed
  from two have st: "status_of (snd (fetchAll rs s)) = status_of (snd (fetchAll rs s'))"
    and er: "error (snd (fetchAll rs s)) = error (snd (fetchAll rs s'))"
    by (simp_all add: fetchAll_status fetchAll_error)
  from two have fl: "\<forall>j. field_of (snd (fetchAll rs s)) j = field_of (snd (fetchAll rs s')) j
          \<or> field_of (snd (fetchAll rs s)) j = field_of s j
            \<and> field_of (snd (fetchAll rs s')) j = field_of s' j"
    by (simp add: fetchAll_field field_of_frame)
  have again: "useEffect_fetch q rs (snd (useEffect_fetch q rs s)) = useEffect_fetch q rs s"
    by (simp add: useEffect_fetch_def fetchAll_idem)
  from same st er fl again show ?thesis by blast
qed

theorem aggregation_determined_by_outcomes_and_fields_witness:
  "fetchAll \<lparr>intentRes = success intent_body, servicesRes = server_error,
      seifaRes = not_json, labourRes = Rejected, rulecardRes = Rejected\<rparr>
     (initial_page\<lparr>loading := True, error := Some ''Error fetching data''\<rparr>)
   = (None, \<lparr>services = JArr [], seifa = JNull, labour = JNull, rulecard = JNull,
        aiInsight = intent_body, loading = False, error = Some ''Error fetching data''\<rparr>)
   \<and> useEffect_fetch example_query
     \<lparr>intentRes = success intent_body, servicesRes = server_error,
      seifaRes = not_json, labourRes = Rejected, rulecardRes = Rejected\<rparr>
     (snd (useEffect_fetch example_query
        \<lparr>intentRes = success intent_body, servicesRes = server_error,
         seifaRes = not_json, labourRes = Rejected, rulecardRes = Rejected\<rparr>
        initial_page))
   = (None, \<lparr>services = JArr [], seifa = JNull, labour = JNull, rulecard = JNull,
        aiInsight = intent_body, loading = False, error = Some ''Error fetching data''\<rparr>)"
proof -
  let ?rs = "\<lparr>intentRes = success intent_body, servicesRes = server_error,
      seifaRes = not_json, labourRes = Rejected, rulecardRes = Rejected\<rparr>"
  let ?s = "initial_page\<lparr>loading := True, error := Some ''Error fetching data''\<rparr>"
  have h: "\<forall>j. field_of ?s j = field_of initial_page j"
  proof
    fix j show "field_of ?s j = field_of initial_page j"
      by (cases j) simp_all
  qed
  have v: "fetchAll ?rs initial_page
      = (None, \<lparr>services = JArr [], seifa = JNull, labour = JNull, rulecard = JNull,
        aiInsight = intent_body, loading = False, error = Some ''Error fetching data''\<rparr>)"
    by (simp add: run_defs example_defs)
  from aggregation_determined_by_outcomes_and_fields [of ?s initial_page ?rs example_query] h
  have "fetchAll ?rs ?s = fetchAll ?rs initial_page" by blast
  with v have first: "fetchAll ?rs ?s
      = (None, \<lparr>services = JArr [], seifa = JNull, labour = JNull, rulecard = JNull,
        aiInsight = intent_body, loading = False, error = Some ''Error fetching data''\<rparr>)"
    by simp
  from aggregation_determined_by_outcomes_and_fields [of initial_page initial_page ?rs example_query]
  have "useEffect_fetch example_query ?rs (snd (useEffect_fetch example_query ?rs initial_page))
      = useEffect_fetch example_query ?rs initial_page"
    by blast
  also have "\<dots> = fetchAll ?rs initial_page"
    by (simp add: useEffect_fetch_def example_query_def)
  finally have second: "useEffect_fetch example_query ?rs
        (snd (useEffect_fetch example_query ?rs initial_page))
      = (None, \<lparr>services = JArr [], seifa = JNull, labour = JNull, rulecard = JNull,
        aiInsight = intent_body, loading = False, error = Some ''Error fetching data''\<rparr>)"
    using v by simp
  from first second show ?thesis by (rule conjI)
qed

text \<open>
  C7 as stated compares any two runs with the same query and the same responses. The data
  fields are not reset when a run starts, so the page of the earlier runs shows through:
  the example query with five rejected requests leaves the area absent on a fresh page,
  and leaves the area of another query there when that query ran in between.
\<close>

theorem same_query_after_another_differs:
  "seifa (snd (useEffect_fetch example_query
      \<lparr>intentRes = Rejected, servicesRes = Rejected, seifaRes = Rejected,
       labourRes = Rejected, rulecardRes = Rejected\<rparr> initial_page)) = JNull
   \<and> seifa (snd (useEffect_fetch example_query
      \<lparr>intentRes = Rejected, servicesRes = Rejected, seifaRes = Rejected,
       labourRes = Rejected, rulecardRes = Rejected\<rparr>
      (snd (useEffect_fetch
         \<lparr>category = ''health'', state = ''QLD'', suburb = ''Cairns'', userQuery = ''clinic''\<rparr>
         \<lparr>intentRes = Rejected, servicesRes = Rejected, seifaRes = success seifa_body,
          labourRes = Rejected, rulecardRes = Rejected\<rparr>
         (snd (useEffect_fetch example_query
            \<lparr>intentRes = Rejected, servicesRes = Rejected, seifaRes = Rejected,
             labourRes = Rejected, rulecardRes = Rejected\<rparr> initial_page)))))) = seifa_body"
proof -
  let ?down = "\<lparr>intentRes = Rejected, servicesRes = Rejected, seifaRes = Rejected,
       labourRes = Rejected, rulecardRes = Rejected\<rparr>"
  let ?area = "\<lparr>intentRes = Rejected, servicesRes = Rejected, seifaRes = success seifa_body,
          labourRes = Rejected, rulecardRes = Rejected\<rparr>"
  let ?other = "\<lparr>category = ''health'', state = ''QLD'', suburb = ''Cairns'',
          userQuery = ''clinic''\<rparr>"
  have first: "useEffect_fetch example_query ?down initial_page = (None, initial_page)"
    by (simp add: useEffect_fetch_def example_query_def run_defs)
  have between: "useEffect_fetch ?other ?area initial_page
      = (None, initial_page\<lparr>seifa := seifa_body\<rparr>)"
    by (simp add: useEffect_fetch_def run_defs success_def)
  have last: "useEffect_fetch example_query ?down (initial_page\<lparr>seifa := seifa_body\<rparr>)
      = (None, initial_page\<lparr>seifa := seifa_body\<rparr>)"
    by (simp add: useEffect_fetch_def example_query_def run_defs)
  show ?thesis
    by (simp add: first between last) (simp add: initial_page_def)
qed

text \<open>
  C8. For a guide whose \<^verbatim>\<open>rulecard\<close> member is a string, the rows shown are the pieces
  of \<^verbatim>\<open>split('\n')\<close> in their order, one row per piece, numbered from 1; there is one
  more row than the text has newlines, the pieces joined by newlines are the text again,
  and no piece holds a newline, so nothing was sorted, dropped or merged.
\<close>

theorem guide_steps_are_the_split_text:
  assumes "get_prop rc ''rulecard'' = Inr (JStr guide_text)"
  shows "\<exists>steps. guide_steps rc = Inr (Some steps)
       \<and> map snd steps = split_nl guide_text
       \<and> map fst steps = [1 ..< Suc (length (split_nl guide_text))]
       \<and> length steps = Suc (length (filter (\<lambda>c. c = newline) guide_text))
       \<and> join_nl (map snd steps) = guide_text
       \<and> (\<forall>p \<in> set (map snd steps). newline \<notin> set p)"
proof -
  define steps where
    "steps = map (\<lambda>(index, step). (index + 1, step)) (enumerate 0 (split_nl guide_text))"
  from assms have "truthy rc" by (cases rc) auto
  with assms have run: "guide_steps rc = Inr (Some steps)"
    by (simp add: guide_steps_def steps_def)
  have texts: "map snd steps = split_nl guide_text"
    unfolding steps_def by (rule numbered_snd)
  have badges: "map fst steps = [1 ..< Suc (length (split_nl guide_text))]"
    unfolding steps_def using numbered_fst [of 0 "split_nl guide_text"] by simp
  have count: "length steps = Suc (length (filter (\<lambda>c. c = newline) guide_text))"
    using split_nl_length [of guide_text] by (simp add: steps_def)
  have whole: "join_nl (map snd steps) = guide_text"
    by (simp only: texts join_split_nl)
  have pieces: "\<forall>p \<in> set (map snd steps). newline \<notin> set p"
    unfolding texts using split_nl_no_newline by blast
  from run texts badges count whole pieces show ?thesis by blast
qed

theorem guide_steps_are_the_split_text_witness:
  "get_prop (JObj [(''category'', JStr ''housing''),
                   (''rulecard'', JStr [CHR ''a'', CHR 0x0A, CHR 0x0A, CHR ''b'', CHR ''c''])])
     ''rulecard'' = Inr (JStr [CHR ''a'', CHR 0x0A, CHR 0x0A, CHR ''b'', CHR ''c''])
   \<and> guide_steps (JObj [(''category'', JStr ''housing''),
                   (''rulecard'', JStr [CHR ''a'', CHR 0x0A, CHR 0x0A, CHR ''b'', CHR ''c''])])
     = Inr (Some [(1, ''a''), (2, ''''), (3, ''bc'')])"
proof -
  have h: "get_prop (JObj [(''category'', JStr ''housing''),
                   (''rulecard'', JStr [CHR ''a'', CHR 0x0A, CHR 0x0A, CHR ''b'', CHR ''c''])])
     ''rulecard'' = Inr (JStr [CHR ''a'', CHR 0x0A, CHR 0x0A, CHR ''b'', CHR ''c''])"
    by simp
  from guide_steps_are_the_split_text [OF h] h show ?thesis
    by (simp add: guide_steps_def newline_def enumerate_eq_zip)
qed

text \<open>
  C9. The two statements that start \<open>fetchAll\<close> set \<open>loading\<close> to true and \<open>error\<close>
  to absent and leave every data field \<open>j\<close> as it was. For a source \<open>k\<close> whose request
  fails (network error, status code outside 200..299, or a body whose decoding throws), the
  field of \<open>k\<close> after the whole of \<open>fetchAll\<close> is still what it was before the call.
\<close>

theorem failed_source_keeps_previous_value:
  assumes "http_failed (res_of rs k) \<or> throws k (res_of rs k)"
  shows "loading (snd (fetchAll_start s)) = True
       \<and> error (snd (fetchAll_start s)) = None
       \<and> field_of (snd (fetchAll_start s)) j = field_of s j
       \<and> field_of (snd (fetchAll rs s)) k = field_of s k"
proof -
  have "\<forall>(k', r) \<in> set (blocks_of rs). k' = k \<longrightarrow> http_failed r \<or> throws k' r"
    using assms by (auto simp: blocks_of_mem)
  from run_blocks_retains [OF this]
  have "field_of (snd (fetchAll rs s)) k = field_of s k"
    by (simp add: fetchAll_field field_of_frame)
  then show ?thesis
    by (simp add: fetchAll_start_eq field_of_frame)
qed

theorem failed_source_keeps_previous_value_witness:
  "http_failed (res_of \<lparr>intentRes = success intent_body, servicesRes = success services_body,
       seifaRes = server_error, labourRes = Rejected, rulecardRes = not_json\<rparr> Seifa)
   \<and> field_of (snd (fetchAll \<lparr>intentRes = success intent_body, servicesRes = success services_body,
       seifaRes = server_error, labourRes = Rejected, rulecardRes = not_json\<rparr>
       (initial_page\<lparr>seifa := seifa_body\<rparr>))) Seifa = seifa_body"
proof -
  have h: "http_failed (res_of \<lparr>intentRes = success intent_body, servicesRes = success services_body,
       seifaRes = server_error, labourRes = Rejected, rulecardRes = not_json\<rparr> Seifa)"
    by (simp add: outcome_defs example_defs)
  from h failed_source_keeps_previous_value [of _ Seifa "initial_page\<lparr>seifa := seifa_body\<rparr>" Seifa, OF disjI1, OF h]
  show ?thesis by simp
qed

text \<open>
  C10, as amended. Let the services request come back with a success status and a decoded
  body \<open>d\<close> whose member \<^verbatim>\<open>services\<close> can be read and is missing or falsy, and let
  the decoding of the intent response, which is handled first, not throw. Then
  \<open>fetchAll\<close> sets the services field to the empty list, whatever it held before, and
  the services block is no failure: if none of the three later bodies is undecodable either,
  the page ends ready with no error.
\<close>

theorem missing_services_member_gives_empty_list:
  assumes "delivers (servicesRes rs) d"
    and "get_prop d ''services'' = Inr v"
    and "\<not> truthy v"
    and "\<not> undecodable (intentRes rs)"
  shows "services (snd (fetchAll rs s)) = JArr []
       \<and> (\<not> undecodable (seifaRes rs) \<and> \<not> undecodable (labourRes rs)
            \<and> \<not> undecodable (rulecardRes rs)
          \<longrightarrow> status_of (snd (fetchAll rs s)) = Ready \<and> error (snd (fetchAll rs s)) = None)"
proof -
  let ?s0 = "s\<lparr>loading := True, error := None\<rparr>"
  let ?rest = "[(Seifa, seifaRes rs), (Labour, labourRes rs), (Rulecard, rulecardRes rs)]"
  from assms(2) have "d \<noteq> JNull" and "d \<noteq> JUndefined" by auto
  with assms(1) have nts: "\<not> throws Services (servicesRes rs)"
    by (cases "servicesRes rs") (auto simp: throws_def undecodable_def delivers_def)
  have sto: "stored Services d = JArr []"
    using assms(2,3) by (simp add: stored_def js_or_def)
  have nti: "\<not> throws Intent (intentRes rs)"
    using assms(4) by (simp add: throws_def)
  with block_cases [of Intent "intentRes rs" ?s0]
  obtain s1 where b1: "block Intent (intentRes rs) ?s0 = (None, s1)" by auto
  have b2: "block Services (servicesRes rs) s1 = (None, put Services (JArr []) s1)"
    using block_stores [OF assms(1) nts, of s1] sto by simp
  have e1: "run_blocks (blocks_of rs) ?s0 = run_blocks ?rest (put Services (JArr []) s1)"
    by (simp add: blocks_of_def b1 b2)
  have "field_of (snd (run_blocks (blocks_of rs) ?s0)) Services
      = field_of (snd (run_blocks ?rest (put Services (JArr []) s1))) Services"
    by (simp only: e1)
  also have "\<dots> = field_of (put Services (JArr []) s1) Services"
    by (rule run_blocks_other_field) simp
  also have "\<dots> = JArr []"
    by (subst field_of_put) simp
  finally have "field_of (snd (run_blocks (blocks_of rs) ?s0)) Services = JArr []" .
  then have part1: "services (snd (fetchAll rs s)) = JArr []"
    using fetchAll_field [of rs s Services] by simp
  have part2: "status_of (snd (fetchAll rs s)) = Ready \<and> error (snd (fetchAll rs s)) = None"
    if "\<not> undecodable (seifaRes rs)" and "\<not> undecodable (labourRes rs)"
      and "\<not> undecodable (rulecardRes rs)"
  proof -
    have "\<forall>j. \<not> throws j (res_of rs j)"
    proof
      fix j show "\<not> throws j (res_of rs j)"
        using that nts nti by (cases j) (simp_all add: throws_def)
    qed
    from run_all_sources(1) [OF this, of ?s0] show ?thesis
      by (simp add: fetchAll_status fetchAll_error)
  qed
  from part1 part2 show ?thesis by blast
qed

theorem missing_services_member_gives_empty_list_witness:
  "delivers (servicesRes \<lparr>intentRes = Rejected, servicesRes = success (JObj [(''total'', JNum 0)]),
       seifaRes = Rejected, labourRes = Rejected, rulecardRes = Rejected\<rparr>)
     (JObj [(''total'', JNum 0)])
   \<and> get_prop (JObj [(''total'', JNum 0)]) ''services'' = Inr JUndefined
   \<and> services (snd (fetchAll \<lparr>intentRes = Rejected, servicesRes = success (JObj [(''total'', JNum 0)]),
       seifaRes = Rejected, labourRes = Rejected, rulecardRes = Rejected\<rparr>
       (initial_page\<lparr>services := JArr [JObj [(''name'', JStr ''Homes'')]]\<rparr>))) = JArr []
   \<and> status_of (snd (fetchAll \<lparr>intentRes = Rejected, servicesRes = success (JObj [(''total'', JNum 0)]),
       seifaRes = Rejected, labourRes = Rejected, rulecardRes = Rejected\<rparr>
       (initial_page\<lparr>services := JArr [JObj [(''name'', JStr ''Homes'')]]\<rparr>))) = Ready"
proof -
  let ?rs = "\<lparr>intentRes = Rejected, servicesRes = success (JObj [(''total'', JNum 0)]),
       seifaRes = Rejected, labourRes = Rejected, rulecardRes = Rejected\<rparr>"
  have h1: "delivers (servicesRes ?rs) (JObj [(''total'', JNum 0)])"
    by (simp add: outcome_defs example_defs)
  have h2: "get_prop (JObj [(''total'', JNum 0)]) ''services'' = Inr JUndefined"
    by simp
  have h3: "\<not> truthy JUndefined" by simp
  have h4: "\<not> undecodable (intentRes ?rs)"
    by (simp add: outcome_defs)
  have h5: "\<not> undecodable (seifaRes ?rs) \<and> \<not> undecodable (labourRes ?rs)
            \<and> \<not> undecodable (rulecardRes ?rs)"
    by (simp add: outcome_defs)
  from missing_services_member_gives_empty_list [OF h1 h2 h3 h4] h1 h2 h5
  show ?thesis by blast
qed

text \<open>
  C10 as stated puts no condition on the intent response. When its body is not JSON,
  \<open>fetchAll\<close> throws before it reaches the services block: the services field keeps its
  previous list and the page ends failed.
\<close>

theorem services_block_not_reached:
  "delivers (servicesRes \<lparr>intentRes = not_json, servicesRes = success (JObj [(''total'', JNum 0)]),
       seifaRes = Rejected, labourRes = Rejected, rulecardRes = Rejected\<rparr>)
     (JObj [(''total'', JNum 0)])
   \<and> get_prop (JObj [(''total'', JNum 0)]) ''services'' = Inr JUndefined
   \<and> services (snd (fetchAll \<lparr>intentRes = not_json, servicesRes = success (JObj [(''total'', JNum 0)]),
       seifaRes = Rejected, labourRes = Rejected, rulecardRes = Rejected\<rparr>
       (initial_page\<lparr>services := JArr [JObj [(''name'', JStr ''Homes'')]]\<rparr>)))
      = JArr [JObj [(''name'', JStr ''Homes'')]]
   \<and> status_of (snd (fetchAll \<lparr>intentRes = not_json, servicesRes = success (JObj [(''total'', JNum 0)]),
       seifaRes = Rejected, labourRes = Rejected, rulecardRes = Rejected\<rparr>
       (initial_page\<lparr>services := JArr [JObj [(''name'', JStr ''Homes'')]]\<rparr>))) = Failed"
  by (simp add: run_defs example_defs http_failed_def delivers_def undecodable_def throws_def)

section \<open>Properties of the home page\<close>



text \<open>
  C6. With the empty state code \<open>fetchSuburbs\<close> stores the empty list and does nothing
  else: it calls \<^verbatim>\<open>fetch\<close> with no address, touches no other cell and does not throw.
\<close>

theorem fetchSuburbs_empty_state:
  "fetchSuburbs applied env r [] s = (None, s\<lparr>availableSuburbs := JArr []\<rparr>)
   \<and> fetched (snd (fetchSuburbs applied env r [] s)) = fetched s"
  by (simp add: fetchSuburbs_def setAvailableSuburbs_def)

theorem fetchSuburbs_empty_state_witness:
  "fetchSuburbs (\<lambda>n p. p) None (success (JObj [(''suburbs'', JArr [JStr ''Hobart''])])) []
     (initial_home\<lparr>availableSuburbs := JArr [JStr ''Perth CBD'']\<rparr>)
   = (None, \<lparr>availableSuburbs = JArr [], loadingSuburbs = False, fetched = []\<rparr>)"
  using fetchSuburbs_empty_state
    [of "\<lambda>n p. p" None "success (JObj [(''suburbs'', JArr [JStr ''Hobart''])])"
        "initial_home\<lparr>availableSuburbs := JArr [JStr ''Perth CBD'']\<rparr>"]
  by (simp add: initial_home_def)

end
